theory Spec2Isabelle
  imports Main "HOL-Library.Word" "HOL-Library.AList"
begin

unbundle bit_operations_syntax

section \<open>Errors raised by the tap bindings and the wire codec\<close>

text \<open>
  Every \<^verbatim>\<open>throw\<close> of the TypeScript source is a value of this type. The
  constructor names follow the taxonomy of the specification; the comments give the
  message of the JavaScript \<^verbatim>\<open>Error\<close> the source builds.
\<close>

datatype error =
    SendFailed int          \<comment> \<open>\<^verbatim>\<open>failed to send frame: ${result}\<close>\<close>
  | RegistrationFailed      \<comment> \<open>\<^verbatim>\<open>tap interface failed to register\<close>\<close>
  | AlreadyListening        \<comment> \<open>\<^verbatim>\<open>readable stream already locked\<close>\<close>
  | NotInitialized          \<comment> \<open>\<^verbatim>\<open>readable stream not initialized\<close>\<close>
  | NonContiguousBits       \<comment> \<open>\<^verbatim>\<open>invalid netmask: non-contiguous bits\<close>\<close>
  | MalformedInput          \<comment> \<open>any failure of a serializer of the wire codec\<close>
  | HooksNotSet             \<comment> \<open>outer hooks requested before \<^verbatim>\<open>setOuter\<close>\<close>
  | StreamTypeError         \<comment> \<open>the platform's TypeError of a closed or locked stream\<close>

type_synonym byte = "8 word"

section \<open>Wire codec: netmask to prefix length\<close>

text \<open>
  The bits of one byte, most significant first, as the scan
  \<^verbatim>\<open>for (let i = 7; i >= 0; i--)\<close> visits them.
\<close>

definition byte_bits :: "byte \<Rightarrow> bool list" where
  "byte_bits b = map (\<lambda>i. bit b i) [7, 6, 5, 4, 3, 2, 1, 0]"

definition netmask_bits :: "byte list \<Rightarrow> bool list" where
  "netmask_bits bs = concat (map byte_bits bs)"

text \<open>
  Modelled from the spec: \<^verbatim>\<open>getPrefixLength\<close> of the wire package
  (\<^verbatim>\<open>ipv4.ts\<close>, the module that \<^verbatim>\<open>ipv4.test.ts\<close> tests). Section 4.1: it
  counts leading one-bits and fails with \<open>NonContiguousBits\<close> if any zero bit precedes a
  one bit when scanning most-significant-bit first across all 32 bits. The scan keeps
  the flag "a zero has been seen" and the count of ones so far.
\<close>

fun scan_bits :: "bool \<Rightarrow> nat \<Rightarrow> bool list \<Rightarrow> error + nat" where
  "scan_bits seenZero n [] = Inr n"
| "scan_bits seenZero n (b # bs) =
     (if b then (if seenZero then Inl NonContiguousBits else scan_bits seenZero (Suc n) bs)
      else scan_bits True n bs)"

definition getPrefixLength :: "byte list \<Rightarrow> error + nat" where
  "getPrefixLength netmaskBytes = scan_bits False 0 (netmask_bits netmaskBytes)"

text \<open>
  The shape the specification names: \<open>k\<close> one-bits followed by \<open>32 - k\<close> zero-bits.
\<close>

definition prefix_pattern :: "nat \<Rightarrow> bool list" where
  "prefix_pattern k = replicate k True @ replicate (32 - k) False"


section \<open>The platform's streams\<close>

text \<open>
  The frame source of an interface is a readable stream of the JavaScript platform. Only
  what the tap interface relies on is kept: the chunks enqueued and not yet read, the
  lock a reader holds, and whether the stream has been closed by a cancel. The
  controller's \<^verbatim>\<open>enqueue\<close> appends to an open stream and throws a TypeError on a
  closed one; \<^verbatim>\<open>getReader\<close> throws a TypeError on a locked stream.
\<close>

datatype stream_state = Readable | Closed

record 'f readable_stream =
  queue :: "'f list"
  locked :: bool
  state :: stream_state

definition enqueue :: "'f \<Rightarrow> 'f readable_stream \<Rightarrow> error + 'f readable_stream" where
  "enqueue chunk s =
     (if state s = Readable then Inr (s\<lparr>queue := queue s @ [chunk]\<rparr>)
      else Inl StreamTypeError)"

definition acquire_lock :: "'f readable_stream \<Rightarrow> error + 'f readable_stream" where
  "acquire_lock s = (if locked s then Inl StreamTypeError else Inr (s\<lparr>locked := True\<rparr>))"

definition releaseLock :: "'f readable_stream \<Rightarrow> 'f readable_stream" where
  "releaseLock s = s\<lparr>locked := False\<rparr>"

definition cancel :: "'f readable_stream \<Rightarrow> 'f readable_stream" where
  "cancel s = s\<lparr>queue := [], state := Closed\<rparr>"

definition read :: "'f readable_stream \<Rightarrow> 'f option \<times> 'f readable_stream" where
  "read s = (case queue s of [] \<Rightarrow> (None, s) | f # fs \<Rightarrow> (Some f, s\<lparr>queue := fs\<rparr>))"

text \<open>The frame sink is a writable stream: it errors when its write callback throws.\<close>

datatype sink_state = Writable | Errored

section \<open>The virtual tap interface\<close>

type_synonym handle = nat

datatype controller = ReadableStreamController

text \<open>
  The class \<^verbatim>\<open>VirtualTapInterface\<close>: its two private fields, its two streams, and
  the outer hooks that \<^verbatim>\<open>register_tap_interface\<close> attaches to it (a closure over
  the handle). The type of frames is a parameter: the streams never look into a frame.
\<close>

record 'f VirtualTapInterface =
  readableController :: "controller option"
  isListening :: bool
  readable :: "'f readable_stream"
  writable :: sink_state
  outerHooks :: "handle option"

text \<open>The two callbacks the constructor hands to the readable stream.\<close>

definition start :: "controller \<Rightarrow> 'f VirtualTapInterface \<Rightarrow> 'f VirtualTapInterface" where
  "start c v = v\<lparr>readableController := Some c\<rparr>"

definition lock :: "'f VirtualTapInterface \<Rightarrow> 'f VirtualTapInterface" where
  "lock v = v\<lparr>isListening := True\<rparr>"

text \<open>
  The object as the field initialisers leave it, before the constructor's body runs.
\<close>

definition initial_fields :: "'f VirtualTapInterface" where
  "initial_fields =
     \<lparr>readableController = None, isListening = False,
      readable = \<lparr>queue = [], locked = False, state = Readable\<rparr>,
      writable = Writable, outerHooks = None\<rparr>"

text \<open>
  Modelled from the spec: \<^verbatim>\<open>ExtendedReadableStream\<close> of \<^verbatim>\<open>util.js\<close>, a
  readable stream with one more callback. Its constructor is the platform's, which runs
  \<^verbatim>\<open>start\<close> with the controller before it returns; section 4.4: listening becomes
  true when something acquires the frame source (obtaining a reader, piping, teeing),
  so every method that locks the stream runs \<^verbatim>\<open>lock\<close>. An attempt that fails on
  a locked stream acquires nothing and changes nothing.
\<close>

definition new_VirtualTapInterface :: "'f VirtualTapInterface" where
  "new_VirtualTapInterface = start ReadableStreamController initial_fields"

definition getReader :: "'f VirtualTapInterface \<Rightarrow> error + 'f VirtualTapInterface" where
  "getReader v =
     (case acquire_lock (readable v) of
        Inl e \<Rightarrow> Inl e
      | Inr s \<Rightarrow> Inr (lock (v\<lparr>readable := s\<rparr>)))"

text \<open>The inner hook \<^verbatim>\<open>receiveFrame\<close> that the constructor installs.\<close>

definition receiveFrame :: "'f \<Rightarrow> 'f VirtualTapInterface \<Rightarrow> error + 'f VirtualTapInterface" where
  "receiveFrame frame v =
     (if \<not> isListening v then Inr v
      else case readableController v of
        None \<Rightarrow> Inl NotInitialized
      | Some c \<Rightarrow>
          (case enqueue frame (readable v) of
             Inl e \<Rightarrow> Inl e
           | Inr s \<Rightarrow> Inr (v\<lparr>readable := s\<rparr>)))"

text \<open>
  Modelled from the spec: \<^verbatim>\<open>fromReadable\<close> of \<^verbatim>\<open>util.js\<close>. Section 4.4: the
  iteration accessor is equivalent to acquiring the frame source and exposing it as a
  sequence of frames; so it obtains a reader.
\<close>

definition fromReadable :: "'f VirtualTapInterface \<Rightarrow> error + 'f VirtualTapInterface" where
  "fromReadable v = getReader v"

definition listen :: "'f VirtualTapInterface \<Rightarrow> error + 'f VirtualTapInterface" where
  "listen v = (if locked (readable v) then Inl AlreadyListening else fromReadable v)"

text \<open>
  One thing that happens to the readable side of an interface: the binding core hands
  it a frame, or the consumer obtains a reader, calls \<^verbatim>\<open>listen\<close>, releases the
  reader's lock, cancels the stream or reads a chunk. A delivery that throws rejects a
  promise nobody awaits, and an acquisition that throws reports to the consumer; both
  leave the object as it was.
\<close>

datatype 'f event = Deliver 'f | Acquire | Listen | Release | Cancel | Read

fun step :: "'f event \<Rightarrow> 'f VirtualTapInterface \<Rightarrow> 'f VirtualTapInterface" where
  "step (Deliver frame) v = (case receiveFrame frame v of Inl e \<Rightarrow> v | Inr v' \<Rightarrow> v')"
| "step Acquire v = (case getReader v of Inl e \<Rightarrow> v | Inr v' \<Rightarrow> v')"
| "step Listen v = (case listen v of Inl e \<Rightarrow> v | Inr v' \<Rightarrow> v')"
| "step Release v = v\<lparr>readable := releaseLock (readable v)\<rparr>"
| "step Cancel v = v\<lparr>readable := cancel (readable v)\<rparr>"
| "step Read v = v\<lparr>readable := snd (read (readable v))\<rparr>"


section \<open>Foreign memory and byte arrays\<close>

text \<open>
  A \<^verbatim>\<open>Uint8Array\<close> is a window on a buffer. The buffer is either the linear memory
  of the engine or an array buffer of the JavaScript heap; two arrays share storage
  when they name the same buffer.
\<close>

datatype array_buffer = WasmMemory | ArrayBuffer nat

record Uint8Array =
  buffer :: array_buffer
  byteOffset :: nat
  byteLength :: nat

type_synonym ref = nat

text \<open>
  What the engine does while one of its operations runs: it calls the imports of the
  bindings and writes to its own linear memory.
\<close>

datatype engine_action =
    Call_register_tap_interface handle
  | Call_receive_frame handle nat nat
  | Write_memory "byte list"

text \<open>
  The exports of the engine that the tap bindings call. The engine is a foreign module:
  each export is a parameter that answers with the engine's actions during the call and
  the value it returns. The marshalled bytes stand for the pointers the source passes.
\<close>

record engine =
  create_tap_interface ::
    "byte list \<Rightarrow> byte list option \<Rightarrow> byte list option \<Rightarrow> engine_action list \<times> handle"
  remove_tap_interface :: "handle \<Rightarrow> engine_action list"
  send_tap_interface :: "handle \<Rightarrow> byte list \<Rightarrow> engine_action list \<times> int"

datatype export_call =
    Create_tap_interface "byte list" "byte list option" "byte list option"
  | Remove_tap_interface handle
  | Send_tap_interface handle "byte list"

text \<open>The continuation of \<^verbatim>\<open>receive_frame\<close> that waits behind its \<^verbatim>\<open>await\<close>.\<close>

datatype task = Resume_receive_frame handle Uint8Array

datatype log_entry = ConsoleError string "error option"

section \<open>The tap bindings\<close>

text \<open>
  The state of a \<^verbatim>\<open>TapBindings\<close> object and of the run time around it: the map
  \<^verbatim>\<open>interfaces\<close> in insertion order, the interface objects by reference, the linear
  memory, the array buffers, the queue of microtasks, what was written to the console,
  the rejections of promises nobody awaits, and the calls made to the engine.
\<close>

record TapBindings =
  interfaces :: "(handle \<times> ref) list"
  objects :: "ref \<Rightarrow> Uint8Array VirtualTapInterface"
  next_ref :: ref
  memory :: "byte list"
  arrayBuffers :: "nat \<Rightarrow> byte list"
  next_buffer :: nat
  microtasks :: "task list"
  console :: "log_entry list"
  unhandledRejections :: "error list"
  exportCalls :: "export_call list"

definition bytes_of :: "TapBindings \<Rightarrow> Uint8Array \<Rightarrow> byte list" where
  "bytes_of w u =
     take (byteLength u) (drop (byteOffset u)
       (case buffer u of WasmMemory \<Rightarrow> memory w | ArrayBuffer n \<Rightarrow> arrayBuffers w n))"

text \<open>A new array buffer holding the given bytes, and the array over all of it.\<close>

definition allocate :: "byte list \<Rightarrow> TapBindings \<Rightarrow> Uint8Array \<times> TapBindings" where
  "allocate bytes w =
     (\<lparr>buffer = ArrayBuffer (next_buffer w), byteOffset = 0, byteLength = length bytes\<rparr>,
      w\<lparr>arrayBuffers := (arrayBuffers w)(next_buffer w := bytes),
        next_buffer := Suc (next_buffer w)\<rparr>)"

text \<open>
  Modelled from the spec: \<^verbatim>\<open>copyFromMemory\<close> of the base class
  (\<^verbatim>\<open>base.js\<close>). Section 4.2: it reads a snapshot and does not retain any reference
  into foreign memory afterward. A range that runs past the end of the memory is cut
  there, as a slice of the buffer is.
\<close>

definition copyFromMemory :: "nat \<Rightarrow> nat \<Rightarrow> TapBindings \<Rightarrow> Uint8Array \<times> TapBindings" where
  "copyFromMemory pointer len w = allocate (take len (drop pointer (memory w))) w"

text \<open>The platform's \<^verbatim>\<open>new Uint8Array(typedArray)\<close>: a copy in a buffer of its own.\<close>

definition new_Uint8Array :: "Uint8Array \<Rightarrow> TapBindings \<Rightarrow> Uint8Array \<times> TapBindings" where
  "new_Uint8Array u w = allocate (bytes_of w u) w"

text \<open>
  Modelled from the spec: \<^verbatim>\<open>Hooks.setOuter\<close> of \<^verbatim>\<open>util.js\<close>, which attaches
  the engine-facing callbacks to the object (section 9). They close over the handle.
\<close>

definition setOuter :: "handle \<Rightarrow> 'f VirtualTapInterface \<Rightarrow> 'f VirtualTapInterface" where
  "setOuter h v = v\<lparr>outerHooks := Some h\<rparr>"

subsection \<open>The imports: what the engine calls\<close>

definition register_tap_interface :: "handle \<Rightarrow> TapBindings \<Rightarrow> TapBindings" where
  "register_tap_interface h w =
     (let tapInterface = next_ref w in
      w\<lparr>objects := (objects w)(tapInterface := setOuter h new_VirtualTapInterface),
        next_ref := Suc tapInterface,
        interfaces := AList.update h tapInterface (interfaces w)\<rparr>)"

text \<open>
  \<^verbatim>\<open>receive_frame\<close> up to its \<^verbatim>\<open>await nextMicrotask()\<close>: the copy, then the
  rest of the body is queued. Modelled from the spec: \<^verbatim>\<open>nextMicrotask\<close> of
  \<^verbatim>\<open>util.js\<close>; section 4.3: delivery is deferred to the next scheduling quantum.
\<close>

definition receive_frame :: "handle \<Rightarrow> nat \<Rightarrow> nat \<Rightarrow> TapBindings \<Rightarrow> TapBindings" where
  "receive_frame h framePtr len w =
     (let (frame, w1) = copyFromMemory framePtr len w in
      w1\<lparr>microtasks := microtasks w1 @ [Resume_receive_frame h frame]\<rparr>)"

text \<open>
  \<^verbatim>\<open>receive_frame\<close> after the \<^verbatim>\<open>await\<close>. The inner hook is an async function
  whose promise is dropped: an error it throws is a rejection nobody handles.
\<close>

definition resume_receive_frame :: "handle \<Rightarrow> Uint8Array \<Rightarrow> TapBindings \<Rightarrow> TapBindings" where
  "resume_receive_frame h frame w =
     (case map_of (interfaces w) h of
        None \<Rightarrow>
          w\<lparr>console := console w @
               [ConsoleError ''received frame on unknown tap interface'' None]\<rparr>
      | Some tapInterface \<Rightarrow>
          (let (copy, w1) = new_Uint8Array frame w in
           case receiveFrame copy (objects w1 tapInterface) of
             Inl e \<Rightarrow> w1\<lparr>unhandledRejections := unhandledRejections w1 @ [e]\<rparr>
           | Inr v \<Rightarrow> w1\<lparr>objects := (objects w1)(tapInterface := v)\<rparr>))"

fun run_task :: "task \<Rightarrow> TapBindings \<Rightarrow> TapBindings" where
  "run_task (Resume_receive_frame h frame) w = resume_receive_frame h frame w"

definition run_microtask :: "TapBindings \<Rightarrow> TapBindings" where
  "run_microtask w =
     (case microtasks w of [] \<Rightarrow> w | t # ts \<Rightarrow> run_task t (w\<lparr>microtasks := ts\<rparr>))"

fun engine_act :: "engine_action \<Rightarrow> TapBindings \<Rightarrow> TapBindings" where
  "engine_act (Call_register_tap_interface h) w = register_tap_interface h w"
| "engine_act (Call_receive_frame h framePtr len) w = receive_frame h framePtr len w"
| "engine_act (Write_memory m) w = w\<lparr>memory := m\<rparr>"

definition run_engine :: "engine_action list \<Rightarrow> TapBindings \<Rightarrow> TapBindings" where
  "run_engine acts w = fold engine_act acts w"

definition call_export :: "export_call \<Rightarrow> TapBindings \<Rightarrow> TapBindings" where
  "call_export c w = w\<lparr>exportCalls := exportCalls w @ [c]\<rparr>"

subsection \<open>Sending a frame\<close>

text \<open>
  Modelled from the spec: \<^verbatim>\<open>LwipError.ERR_OK\<close> of \<^verbatim>\<open>lwip/errors.js\<close>, the
  distinguished success code of section 6 (lwIP's is 0).
\<close>

definition ERR_OK :: int where
  "ERR_OK = 0"

text \<open>
  The outer hook \<^verbatim>\<open>sendFrame\<close>. The first component of the result is the error it
  throws, if any; the engine has run by then. Modelled from the spec:
  \<^verbatim>\<open>copyToMemory\<close> of \<^verbatim>\<open>base.js\<close>, which marshals the bytes of the frame into
  foreign memory (section 4.2); the engine receives those bytes.
\<close>

definition sendFrame ::
  "engine \<Rightarrow> handle \<Rightarrow> Uint8Array \<Rightarrow> TapBindings \<Rightarrow> error option \<times> TapBindings" where
  "sendFrame eng h frame w =
     (let (acts, result) = send_tap_interface eng h (bytes_of w frame);
          w1 = run_engine acts (call_export (Send_tap_interface h (bytes_of w frame)) w)
      in if result \<noteq> ERR_OK then (Some (SendFailed result), w1) else (None, w1))"

text \<open>
  The \<^verbatim>\<open>write\<close> callback of the writable stream: the \<^verbatim>\<open>try\<close> block first, then
  the \<^verbatim>\<open>catch\<close>. The first component is what the callback itself throws.
\<close>

definition write_try ::
  "engine \<Rightarrow> ref \<Rightarrow> Uint8Array \<Rightarrow> TapBindings \<Rightarrow> error option \<times> TapBindings" where
  "write_try eng r packet w =
     (case outerHooks (objects w r) of
        None \<Rightarrow> (Some HooksNotSet, w)
      | Some h \<Rightarrow> sendFrame eng h packet w)"

definition sink_write ::
  "engine \<Rightarrow> ref \<Rightarrow> Uint8Array \<Rightarrow> TapBindings \<Rightarrow> error option \<times> TapBindings" where
  "sink_write eng r packet w =
     (case write_try eng r packet w of
        (Some err, w1) \<Rightarrow>
          (None, w1\<lparr>console := console w1 @
                      [ConsoleError ''tap interface send failed'' (Some err)]\<rparr>)
      | (None, w1) \<Rightarrow> (None, w1))"

text \<open>
  The platform's side of a write to the sink: an errored sink refuses the chunk, and a
  callback that throws errors the sink and rejects the writer's promise.
\<close>

definition writer_write ::
  "engine \<Rightarrow> ref \<Rightarrow> Uint8Array \<Rightarrow> TapBindings \<Rightarrow> error option \<times> TapBindings" where
  "writer_write eng r packet w =
     (if writable (objects w r) \<noteq> Writable then (Some StreamTypeError, w)
      else case sink_write eng r packet w of
        (Some err, w1) \<Rightarrow>
          (Some err, w1\<lparr>objects := (objects w1)(r := (objects w1 r)\<lparr>writable := Errored\<rparr>)\<rparr>)
      | (None, w1) \<Rightarrow> (None, w1))"

subsection \<open>Create and remove\<close>

text \<open>
  The serializers of the wire package that \<^verbatim>\<open>create\<close> calls are parameters: each
  may throw, and the generated MAC address is random.
\<close>

record codec =
  serializeMacAddress :: "string \<Rightarrow> error + byte list"
  generateMacAddress :: "byte list"
  serializeIPv4Cidr :: "string \<Rightarrow> error + byte list \<times> byte list"

record TapInterfaceOptions =
  mac :: "string option"
  ip :: "string option"

text \<open>
  The first two statements of \<^verbatim>\<open>create\<close>. Both conditionals test the option for
  truthiness: an option that is missing and one that is the empty string take the same
  branch, so for either the MAC address is generated and the address and netmask are
  left out.
\<close>

definition serialize_options ::
  "codec \<Rightarrow> TapInterfaceOptions \<Rightarrow> error + byte list \<times> byte list option \<times> byte list option" where
  "serialize_options cdc options =
     (case (case mac options of
              None \<Rightarrow> Inr (generateMacAddress cdc)
            | Some m \<Rightarrow>
                (if m = [] then Inr (generateMacAddress cdc) else serializeMacAddress cdc m)) of
        Inl e \<Rightarrow> Inl e
      | Inr macAddress \<Rightarrow>
          (case ip options of
             None \<Rightarrow> Inr (macAddress, None, None)
           | Some cidr \<Rightarrow>
               (if cidr = [] then Inr (macAddress, None, None)
                else case serializeIPv4Cidr cdc cidr of
                  Inl e \<Rightarrow> Inl e
                | Inr (ipAddress, netmask) \<Rightarrow>
                    Inr (macAddress, Some ipAddress, Some netmask))))"

definition create ::
  "engine \<Rightarrow> codec \<Rightarrow> TapInterfaceOptions \<Rightarrow> TapBindings \<Rightarrow> (error + ref) \<times> TapBindings" where
  "create eng cdc options w =
     (case serialize_options cdc options of
        Inl e \<Rightarrow> (Inl e, w)
      | Inr (macAddress, ipAddress, netmask) \<Rightarrow>
          (let (acts, h) = create_tap_interface eng macAddress ipAddress netmask;
               w1 = run_engine acts
                      (call_export (Create_tap_interface macAddress ipAddress netmask) w)
           in case map_of (interfaces w1) h of
                None \<Rightarrow> (Inl RegistrationFailed, w1)
              | Some tapInterface \<Rightarrow> (Inr tapInterface, w1)))"

text \<open>
  The loop of \<^verbatim>\<open>remove\<close> over the entries of the map, in insertion order; it stops
  at the first entry whose value is the object.
\<close>

fun remove_loop :: "engine \<Rightarrow> ref \<Rightarrow> (handle \<times> ref) list \<Rightarrow> TapBindings \<Rightarrow> TapBindings" where
  "remove_loop eng tapInterface [] w = w"
| "remove_loop eng tapInterface ((h, loopback) # entries) w =
     (if loopback = tapInterface then
        (let w1 = run_engine (remove_tap_interface eng h) (call_export (Remove_tap_interface h) w)
         in w1\<lparr>interfaces := AList.delete h (interfaces w1)\<rparr>)
      else remove_loop eng tapInterface entries w)"

definition remove_tap :: "engine \<Rightarrow> ref \<Rightarrow> TapBindings \<Rightarrow> TapBindings" where
  "remove_tap eng tapInterface w = remove_loop eng tapInterface (interfaces w) w"

text \<open>What the consumer does to an interface object it holds.\<close>

definition on_object ::
  "ref \<Rightarrow> (Uint8Array VirtualTapInterface \<Rightarrow> Uint8Array VirtualTapInterface) \<Rightarrow>
   TapBindings \<Rightarrow> TapBindings" where
  "on_object r f w = w\<lparr>objects := (objects w)(r := f (objects w r))\<rparr>"

text \<open>A bindings object before anything has happened, over a given linear memory.\<close>

definition new_TapBindings :: "byte list \<Rightarrow> TapBindings" where
  "new_TapBindings m =
     \<lparr>interfaces = [], objects = (\<lambda>r. new_VirtualTapInterface), next_ref = 0,
      memory = m, arrayBuffers = (\<lambda>n. []), next_buffer = 0, microtasks = [],
      console = [], unhandledRejections = [], exportCalls = []\<rparr>"

text \<open>
  Bindings over the memory \<open>[1, 2, 3]\<close> in which the engine has registered handle 7,
  whose interface is object 0, and the consumer has done the given things to that
  object; and the same after the engine has delivered the three bytes at address 0 and
  the microtask has run.
\<close>

definition registered_bindings :: "Uint8Array event list \<Rightarrow> TapBindings" where
  "registered_bindings es =
     on_object 0 (fold step es) (register_tap_interface 7 (new_TapBindings [1, 2, 3]))"

definition deliver_after :: "Uint8Array event list \<Rightarrow> TapBindings" where
  "deliver_after es = run_microtask (receive_frame 7 0 3 (registered_bindings es))"


section \<open>Properties of the wire codec\<close>

lemma length_byte_bits: "length (byte_bits b) = 8"
  by (simp add: byte_bits_def)

lemma length_netmask_bits: "length (netmask_bits bs) = 8 * length bs"
  by (induction bs) (simp_all add: netmask_bits_def length_byte_bits)

lemma scan_bits_zeros: "scan_bits True n (replicate m False) = Inr n"
  by (induction m) simp_all

lemma scan_bits_ones:
  "scan_bits False n (replicate k True @ bs) = scan_bits False (n + k) bs"
  by (induction k arbitrary: n) simp_all

lemma scan_bits_pattern:
  "scan_bits False n (replicate k True @ replicate m False) = Inr (n + k)"
proof (cases m)
  case 0
  then show ?thesis using scan_bits_ones [of n k "[]"] by simp
next
  case (Suc m')
  then show ?thesis by (simp add: scan_bits_ones scan_bits_zeros)
qed

lemma scan_bits_seen_Inr:
  "scan_bits True n bs = Inr r \<Longrightarrow> bs = replicate (length bs) False \<and> r = n"
proof (induction bs)
  case Nil
  then show ?case by simp
next
  case (Cons b bs)
  then show ?case by (cases b) simp_all
qed

lemma scan_bits_Inr:
  "scan_bits False n bs = Inr r \<Longrightarrow>
     \<exists>k \<le> length bs. bs = replicate k True @ replicate (length bs - k) False \<and> r = n + k"
proof (induction bs arbitrary: n)
  case Nil
  then show ?case by simp
next
  case (Cons b bs)
  show ?case
  proof (cases b)
    case True
    with Cons.prems have "scan_bits False (Suc n) bs = Inr r" by simp
    from Cons.IH [OF this] obtain k where
      k: "k \<le> length bs" "bs = replicate k True @ replicate (length bs - k) False"
         "r = Suc n + k" by blast
    have "b # bs = replicate (Suc k) True @ replicate (length (b # bs) - Suc k) False"
      using True k(2) by simp
    with k(1) k(3) show ?thesis
      by (intro exI [of _ "Suc k"]) simp
  next
    case False
    with Cons.prems have "scan_bits True n bs = Inr r" by simp
    from scan_bits_seen_Inr [OF this] have "bs = replicate (length bs) False" "r = n"
      by simp_all
    with False show ?thesis
      by (intro exI [of _ 0]) simp
  qed
qed

lemma scan_bits_error: "scan_bits z n bs = Inl e \<Longrightarrow> e = NonContiguousBits"
  by (induction z n bs rule: scan_bits.induct) (simp_all split: if_splits)

lemma scan_bits_seen_Inl:
  "scan_bits True n bs = Inl e \<Longrightarrow> \<exists>j < length bs. bs ! j"
proof (induction bs)
  case Nil
  then show ?case by simp
next
  case (Cons b bs)
  show ?case
  proof (cases b)
    case True
    then show ?thesis by (intro exI [of _ 0]) simp
  next
    case False
    with Cons.prems have "scan_bits True n bs = Inl e" by simp
    from Cons.IH [OF this] obtain j where "j < length bs" "bs ! j" by blast
    then show ?thesis by (intro exI [of _ "Suc j"]) simp
  qed
qed

lemma scan_bits_Inl:
  "scan_bits False n bs = Inl e \<Longrightarrow>
     \<exists>i j. i < j \<and> j < length bs \<and> \<not> bs ! i \<and> bs ! j"
proof (induction bs arbitrary: n)
  case Nil
  then show ?case by simp
next
  case (Cons b bs)
  show ?case
  proof (cases b)
    case True
    with Cons.prems have "scan_bits False (Suc n) bs = Inl e" by simp
    from Cons.IH [OF this] obtain i j where
      "i < j" "j < length bs" "\<not> bs ! i" "bs ! j" by blast
    then show ?thesis
      by (intro exI [of _ "Suc i"] exI [of _ "Suc j"]) simp
  next
    case False
    with Cons.prems have "scan_bits True n bs = Inl e" by simp
    from scan_bits_seen_Inl [OF this] obtain j where "j < length bs" "bs ! j" by blast
    with False show ?thesis
      by (intro exI [of _ 0] exI [of _ "Suc j"]) simp
  qed
qed

lemma pattern_no_zero_before_one:
  assumes "bs = replicate k True @ replicate m False" "i < j" "j < length bs" "bs ! j"
  shows "bs ! i"
proof -
  from assms(1,3,4) have "j < k"
    by (cases "j < k") (simp_all add: nth_append)
  with assms(1,2) show ?thesis by (simp add: nth_append)
qed

text \<open>
  C9. For every 4-byte netmask whose 32 bits are \<open>k\<close> ones followed by \<open>32 - k\<close>
  zeros, with \<open>k \<le> 32\<close>, \<open>getPrefixLength\<close> returns \<open>k\<close>; for every 4-byte input
  that has no such shape it fails with \<open>NonContiguousBits\<close>; and it fails exactly when
  some zero bit precedes a one bit in the scan from the most significant bit.
\<close>

theorem getPrefixLength_contiguous:
  assumes "length bs = 4"
  shows "(\<forall>k \<le> 32. netmask_bits bs = prefix_pattern k \<longrightarrow> getPrefixLength bs = Inr k)
       \<and> ((\<forall>k \<le> 32. netmask_bits bs \<noteq> prefix_pattern k) \<longrightarrow>
            getPrefixLength bs = Inl NonContiguousBits)
       \<and> (getPrefixLength bs = Inl NonContiguousBits \<longleftrightarrow>
            (\<exists>i j. i < j \<and> j < 32 \<and> \<not> netmask_bits bs ! i \<and> netmask_bits bs ! j))"
proof -
  have len: "length (netmask_bits bs) = 32"
    using assms by (simp add: length_netmask_bits)
  have ok: "getPrefixLength bs = Inr k" if "netmask_bits bs = prefix_pattern k" for k
    using that scan_bits_pattern [of 0 k "32 - k"]
    by (simp add: getPrefixLength_def prefix_pattern_def)
  have shape: "\<exists>k \<le> 32. netmask_bits bs = prefix_pattern k \<and> r = k"
    if "getPrefixLength bs = Inr r" for r
    using scan_bits_Inr [of 0 "netmask_bits bs" r] that len
    by (simp add: getPrefixLength_def prefix_pattern_def)
  have err: "getPrefixLength bs = Inl NonContiguousBits"
    if "\<forall>k \<le> 32. netmask_bits bs \<noteq> prefix_pattern k"
  proof (cases "getPrefixLength bs")
    case (Inl e)
    then show ?thesis
      using scan_bits_error [of False 0 "netmask_bits bs" e]
      by (simp add: getPrefixLength_def)
  next
    case (Inr r)
    from shape [OF this] that show ?thesis by blast
  qed
  have gap: "\<exists>i j. i < j \<and> j < 32 \<and> \<not> netmask_bits bs ! i \<and> netmask_bits bs ! j"
    if "getPrefixLength bs = Inl NonContiguousBits"
    using scan_bits_Inl [of 0 "netmask_bits bs" NonContiguousBits] that len
    by (simp add: getPrefixLength_def)
  have nogap: "getPrefixLength bs = Inl NonContiguousBits"
    if "i < j" "j < 32" "\<not> netmask_bits bs ! i" "netmask_bits bs ! j" for i j
  proof (rule err, intro allI impI notI)
    fix k :: nat
    assume "netmask_bits bs = prefix_pattern k"
    then have "netmask_bits bs = replicate k True @ replicate (32 - k) False"
      by (simp add: prefix_pattern_def)
    from pattern_no_zero_before_one [OF this that(1) _ that(4)] that(2,3) len
    show False by simp
  qed
  from ok err gap nogap show ?thesis by blast
qed

theorem getPrefixLength_contiguous_witness:
  "getPrefixLength [255, 248, 0, 0] = Inr 13
   \<and> getPrefixLength [255, 0, 255, 0] = Inl NonContiguousBits
   \<and> (\<exists>i j. i < j \<and> j < 32 \<and> \<not> netmask_bits [255, 0, 255, 0] ! i
        \<and> netmask_bits [255, 0, 255, 0] ! j)"
proof -
  have a: "netmask_bits [255, 248, 0, 0] = prefix_pattern 13"
    by (simp add: netmask_bits_def byte_bits_def prefix_pattern_def eval_nat_numeral)
  have b: "getPrefixLength [255, 0, 255, 0] = Inl NonContiguousBits"
    by (simp add: getPrefixLength_def netmask_bits_def byte_bits_def)
  from getPrefixLength_contiguous [of "[255, 248, 0, 0]"] a
  have "getPrefixLength [255, 248, 0, 0] = Inr 13" by simp
  moreover from getPrefixLength_contiguous [of "[255, 0, 255, 0]"] b
  have "\<exists>i j. i < j \<and> j < 32 \<and> \<not> netmask_bits [255, 0, 255, 0] ! i
        \<and> netmask_bits [255, 0, 255, 0] ! j" by simp
  ultimately show ?thesis using b by blast
qed

text \<open>
  The expectations of \<^verbatim>\<open>ipv4.test.ts\<close> (lines 186 to 213), evaluated on the model.
\<close>

lemma getPrefixLength_standard_tests:
  "getPrefixLength [0, 0, 0, 0] = Inr 0"
  "getPrefixLength [255, 0, 0, 0] = Inr 8"
  "getPrefixLength [255, 255, 0, 0] = Inr 16"
  "getPrefixLength [255, 255, 255, 0] = Inr 24"
  "getPrefixLength [255, 255, 255, 255] = Inr 32"
  by (simp_all add: getPrefixLength_def netmask_bits_def byte_bits_def)

lemma getPrefixLength_nonstandard_tests:
  "getPrefixLength [128, 0, 0, 0] = Inr 1"
  "getPrefixLength [254, 0, 0, 0] = Inr 7"
  "getPrefixLength [255, 248, 0, 0] = Inr 13"
  "getPrefixLength [255, 255, 224, 0] = Inr 19"
  "getPrefixLength [255, 255, 255, 128] = Inr 25"
  "getPrefixLength [255, 255, 255, 252] = Inr 30"
  by (simp_all add: getPrefixLength_def netmask_bits_def byte_bits_def)

lemma getPrefixLength_invalid_tests:
  "getPrefixLength [255, 0, 255, 0] = Inl NonContiguousBits"
  "getPrefixLength [255, 254, 0, 1] = Inl NonContiguousBits"
  "getPrefixLength [255, 255, 254, 255] = Inl NonContiguousBits"
  by (simp_all add: getPrefixLength_def netmask_bits_def byte_bits_def)

section \<open>Properties of the virtual interface\<close>

lemma receiveFrame_not_listening: "\<not> isListening v \<Longrightarrow> receiveFrame f v = Inr v"
  by (simp add: receiveFrame_def)

lemma deliver_not_listening:
  "\<not> isListening v \<Longrightarrow> fold step (map Deliver fs) v = v"
  by (induction fs) (simp_all add: receiveFrame_not_listening)

lemma receiveFrame_open:
  "isListening v \<Longrightarrow> readableController v = Some c \<Longrightarrow> state (readable v) = Readable \<Longrightarrow>
     receiveFrame f v = Inr (v\<lparr>readable := (readable v)\<lparr>queue := queue (readable v) @ [f]\<rparr>\<rparr>)"
  by (simp add: receiveFrame_def enqueue_def)

lemma deliver_open:
  "isListening v \<Longrightarrow> readableController v = Some c \<Longrightarrow> state (readable v) = Readable \<Longrightarrow>
     fold step (map Deliver fs) v =
       v\<lparr>readable := (readable v)\<lparr>queue := queue (readable v) @ fs\<rparr>\<rparr>"
proof (induction fs arbitrary: v)
  case Nil
  then show ?case by simp
next
  case (Cons f fs)
  let ?v = "v\<lparr>readable := (readable v)\<lparr>queue := queue (readable v) @ [f]\<rparr>\<rparr>"
  have "fold step (map Deliver (f # fs)) v = fold step (map Deliver fs) ?v"
    using Cons.prems by (simp add: receiveFrame_open)
  also have "\<dots> = ?v\<lparr>readable := (readable ?v)\<lparr>queue := queue (readable ?v) @ fs\<rparr>\<rparr>"
    using Cons.prems by (intro Cons.IH) simp_all
  finally show ?case by simp
qed

lemma new_fields:
  "readableController (new_VirtualTapInterface :: 'f VirtualTapInterface) = Some ReadableStreamController"
  "\<not> isListening (new_VirtualTapInterface :: 'f VirtualTapInterface)"
  "queue (readable (new_VirtualTapInterface :: 'f VirtualTapInterface)) = []"
  "\<not> locked (readable (new_VirtualTapInterface :: 'f VirtualTapInterface))"
  "state (readable (new_VirtualTapInterface :: 'f VirtualTapInterface)) = Readable"
  "writable (new_VirtualTapInterface :: 'f VirtualTapInterface) = Writable"
  "outerHooks (new_VirtualTapInterface :: 'f VirtualTapInterface) = None"
  by (simp_all add: new_VirtualTapInterface_def start_def initial_fields_def)

lemma getReader_unlocked:
  "\<not> locked (readable v) \<Longrightarrow>
     getReader v = Inr (v\<lparr>readable := (readable v)\<lparr>locked := True\<rparr>, isListening := True\<rparr>)"
  by (simp add: getReader_def acquire_lock_def lock_def)

lemma receiveFrame_fields:
  "receiveFrame f v = Inr v' \<Longrightarrow>
     readableController v' = readableController v \<and> isListening v' = isListening v
     \<and> writable v' = writable v \<and> outerHooks v' = outerHooks v
     \<and> locked (readable v') = locked (readable v) \<and> state (readable v') = state (readable v)"
  by (auto simp: receiveFrame_def enqueue_def split: if_splits option.splits)

lemma getReader_fields:
  "getReader v = Inr v' \<Longrightarrow>
     readableController v' = readableController v \<and> isListening v'
     \<and> writable v' = writable v \<and> outerHooks v' = outerHooks v
     \<and> locked (readable v') \<and> \<not> locked (readable v)
     \<and> state (readable v') = state (readable v) \<and> queue (readable v') = queue (readable v)"
  by (auto simp: getReader_def acquire_lock_def lock_def split: if_splits)

lemma listen_fields:
  "listen v = Inr v' \<Longrightarrow> getReader v = Inr v'"
  by (simp add: listen_def fromReadable_def split: if_splits)

lemma step_controller: "readableController (step e v) = readableController v"
proof (cases e)
  case (Deliver f)
  then show ?thesis
    by (cases "receiveFrame f v") (simp_all add: receiveFrame_fields)
next
  case Acquire
  then show ?thesis
    by (cases "getReader v") (simp_all add: getReader_fields)
next
  case Listen
  then show ?thesis
    by (cases "listen v") (simp_all add: getReader_fields [OF listen_fields])
qed simp_all

lemma fold_step_controller: "readableController (fold step es v) = readableController v"
  by (induction es arbitrary: v) (simp_all add: step_controller)

lemma step_listening: "isListening v \<Longrightarrow> isListening (step e v)"
proof (cases e)
  case (Deliver f)
  assume "isListening v"
  with Deliver show ?thesis
    by (cases "receiveFrame f v") (simp_all add: receiveFrame_fields)
next
  case Acquire
  assume "isListening v"
  with Acquire show ?thesis
    by (cases "getReader v") (simp_all add: getReader_fields)
next
  case Listen
  assume "isListening v"
  with Listen show ?thesis
    by (cases "listen v") (simp_all add: getReader_fields [OF listen_fields])
qed simp_all

lemma fold_step_listening: "isListening v \<Longrightarrow> isListening (fold step es v)"
  by (induction es arbitrary: v) (simp_all add: step_listening)

lemma receiveFrame_closed:
  "isListening v \<Longrightarrow> readableController v = Some c \<Longrightarrow> state (readable v) = Closed \<Longrightarrow>
     receiveFrame f v = Inl StreamTypeError"
  by (simp add: receiveFrame_def enqueue_def)

lemma receiveFrame_NotInitialized:
  "receiveFrame f v = Inl NotInitialized \<longleftrightarrow> isListening v \<and> readableController v = None"
  by (auto simp: receiveFrame_def enqueue_def split: option.splits)

section \<open>Properties of the bindings\<close>

lemma allocate_fields:
  "fst (allocate bytes w) =
     \<lparr>buffer = ArrayBuffer (next_buffer w), byteOffset = 0, byteLength = length bytes\<rparr>"
  "snd (allocate bytes w) =
     w\<lparr>arrayBuffers := (arrayBuffers w)(next_buffer w := bytes), next_buffer := Suc (next_buffer w)\<rparr>"
  by (simp_all add: allocate_def)

lemma bytes_of_allocate:
  "bytes_of (snd (allocate bytes w)) (fst (allocate bytes w)) = bytes"
  by (simp add: allocate_def bytes_of_def)

lemma receive_frame_eq:
  "receive_frame h framePtr len w =
     w\<lparr>arrayBuffers := (arrayBuffers w)(next_buffer w := take len (drop framePtr (memory w))),
       next_buffer := Suc (next_buffer w),
       microtasks := microtasks w @
         [Resume_receive_frame h
            \<lparr>buffer = ArrayBuffer (next_buffer w), byteOffset = 0,
             byteLength = length (take len (drop framePtr (memory w)))\<rparr>]\<rparr>"
  by (simp add: receive_frame_def copyFromMemory_def allocate_def)

lemma resume_unknown:
  "map_of (interfaces w) h = None \<Longrightarrow>
     resume_receive_frame h frame w =
       w\<lparr>console := console w @
            [ConsoleError ''received frame on unknown tap interface'' None]\<rparr>"
  by (simp add: resume_receive_frame_def)

lemma resume_known:
  "map_of (interfaces w) h = Some r \<Longrightarrow>
     resume_receive_frame h frame w =
       (case receiveFrame (fst (new_Uint8Array frame w)) (objects w r) of
          Inl e \<Rightarrow> (snd (new_Uint8Array frame w))
                     \<lparr>unhandledRejections := unhandledRejections w @ [e]\<rparr>
        | Inr v \<Rightarrow> (snd (new_Uint8Array frame w))\<lparr>objects := (objects w)(r := v)\<rparr>)"
  by (simp add: resume_receive_frame_def new_Uint8Array_def allocate_def split: sum.splits)

lemma register_eq:
  "register_tap_interface h w =
     w\<lparr>objects := (objects w)(next_ref w := setOuter h new_VirtualTapInterface),
       next_ref := Suc (next_ref w),
       interfaces := AList.update h (next_ref w) (interfaces w)\<rparr>"
  by (simp add: register_tap_interface_def Let_def)

lemma register_fields:
  "console (register_tap_interface h w) = console w"
  "exportCalls (register_tap_interface h w) = exportCalls w"
  "unhandledRejections (register_tap_interface h w) = unhandledRejections w"
  "interfaces (register_tap_interface h w) = AList.update h (next_ref w) (interfaces w)"
  by (simp_all add: register_eq)

lemma engine_act_console: "console (engine_act a w) = console w"
  by (cases a) (simp_all add: register_fields receive_frame_eq)

lemma engine_act_exportCalls: "exportCalls (engine_act a w) = exportCalls w"
  by (cases a) (simp_all add: register_fields receive_frame_eq)

lemma engine_act_writable:
  "writable (objects w r) = Writable \<Longrightarrow> writable (objects (engine_act a w) r) = Writable"
  by (cases a)
     (simp_all add: register_eq receive_frame_eq setOuter_def new_fields)

lemma run_engine_console: "console (run_engine acts w) = console w"
  unfolding run_engine_def by (induction acts arbitrary: w) (simp_all add: engine_act_console)

lemma run_engine_exportCalls: "exportCalls (run_engine acts w) = exportCalls w"
  unfolding run_engine_def
  by (induction acts arbitrary: w) (simp_all add: engine_act_exportCalls)

lemma run_engine_writable:
  "writable (objects w r) = Writable \<Longrightarrow> writable (objects (run_engine acts w) r) = Writable"
  unfolding run_engine_def
  by (induction acts arbitrary: w) (simp_all add: engine_act_writable)

lemma engine_act_registered:
  "map_of (interfaces (engine_act a w)) h = None \<longleftrightarrow>
     map_of (interfaces w) h = None \<and> a \<noteq> Call_register_tap_interface h"
  by (cases a) (auto simp: register_fields receive_frame_eq update_conv')

lemma run_engine_registered:
  "map_of (interfaces (run_engine acts w)) h = None \<longleftrightarrow>
     map_of (interfaces w) h = None \<and> Call_register_tap_interface h \<notin> set acts"
  unfolding run_engine_def
  by (induction acts arbitrary: w) (auto simp: engine_act_registered)

lemma sendFrame_eq:
  "sendFrame eng h frame w =
     (if snd (send_tap_interface eng h (bytes_of w frame)) \<noteq> ERR_OK
      then Some (SendFailed (snd (send_tap_interface eng h (bytes_of w frame)))) else None,
      run_engine (fst (send_tap_interface eng h (bytes_of w frame)))
        (call_export (Send_tap_interface h (bytes_of w frame)) w))"
  by (simp add: sendFrame_def Let_def split: prod.splits)

lemma sendFrame_console: "console (snd (sendFrame eng h frame w)) = console w"
  by (simp add: sendFrame_eq run_engine_console call_export_def)

lemma sendFrame_writable:
  "writable (objects w r) = Writable \<Longrightarrow>
     writable (objects (snd (sendFrame eng h frame w)) r) = Writable"
  by (simp add: sendFrame_eq run_engine_writable call_export_def)

lemma sink_write_no_throw: "fst (sink_write eng r packet w) = None"
  by (simp add: sink_write_def split: prod.splits option.splits)

lemma write_try_console: "console (snd (write_try eng r packet w)) = console w"
  by (simp add: write_try_def sendFrame_console split: option.splits)

lemma write_try_writable:
  "writable (objects w r') = Writable \<Longrightarrow>
     writable (objects (snd (write_try eng r packet w)) r') = Writable"
  by (simp add: write_try_def sendFrame_writable split: option.splits)

lemma sink_write_snd:
  "snd (sink_write eng r packet w) =
     (case fst (write_try eng r packet w) of
        None \<Rightarrow> snd (write_try eng r packet w)
      | Some err \<Rightarrow> (snd (write_try eng r packet w))
          \<lparr>console := console w @ [ConsoleError ''tap interface send failed'' (Some err)]\<rparr>)"
  by (cases "write_try eng r packet w")
     (auto simp: sink_write_def split: option.splits dest: arg_cong [where f = "\<lambda>p. console (snd p)"]
        simp: write_try_console)

lemma resume_known_buffers:
  "map_of (interfaces w) h = Some r \<Longrightarrow>
     arrayBuffers (resume_receive_frame h frame w) =
       (arrayBuffers w)(next_buffer w := bytes_of w frame)"
  by (simp add: resume_known new_Uint8Array_def allocate_fields split: sum.splits)

lemma resume_known_queue:
  assumes "map_of (interfaces w) h = Some r" "isListening (objects w r)"
    "readableController (objects w r) = Some c" "state (readable (objects w r)) = Readable"
  shows "queue (readable (objects (resume_receive_frame h frame w) r)) =
           queue (readable (objects w r)) @ [fst (new_Uint8Array frame w)]"
  using assms by (simp add: resume_known receiveFrame_open)

lemma bytes_of_whole:
  "buffer u = ArrayBuffer n \<Longrightarrow> byteOffset u = 0 \<Longrightarrow>
     byteLength u = length (arrayBuffers w n) \<Longrightarrow> bytes_of w u = arrayBuffers w n"
  by (simp add: bytes_of_def)

lemma bytes_of_ArrayBuffer:
  "buffer u = ArrayBuffer n \<Longrightarrow>
     bytes_of w u = take (byteLength u) (drop (byteOffset u) (arrayBuffers w n))"
  by (simp add: bytes_of_def)

lemma create_eq:
  assumes "serialize_options cdc options = Inr (macAddress, ipAddress, netmask)"
    and "create_tap_interface eng macAddress ipAddress netmask = (acts, h)"
  shows "create eng cdc options w =
     (case map_of (interfaces (run_engine acts
              (call_export (Create_tap_interface macAddress ipAddress netmask) w))) h of
        None \<Rightarrow> Inl RegistrationFailed | Some tapInterface \<Rightarrow> Inr tapInterface,
      run_engine acts (call_export (Create_tap_interface macAddress ipAddress netmask) w))"
  using assms by (simp add: create_def Let_def split: option.splits)

lemma remove_loop_absent:
  "tapInterface \<notin> snd ` set entries \<Longrightarrow> remove_loop eng tapInterface entries w = w"
  by (induction entries) auto

lemma remove_loop_found:
  "find (\<lambda>e. snd e = tapInterface) entries = Some (h, r) \<Longrightarrow>
     remove_loop eng tapInterface entries w =
       (run_engine (remove_tap_interface eng h) (call_export (Remove_tap_interface h) w))
         \<lparr>interfaces := AList.delete h (interfaces
             (run_engine (remove_tap_interface eng h) (call_export (Remove_tap_interface h) w)))\<rparr>"
  by (induction entries) (auto simp: Let_def split: if_splits)

lemma find_present:
  "tapInterface \<in> snd ` set entries \<Longrightarrow>
     \<exists>h. find (\<lambda>e. snd e = tapInterface) entries = Some (h, tapInterface)"
  by (induction entries) auto

section \<open>The claims about the virtual interface\<close>

text \<open>
  C1. While the frame source of an interface has never been acquired (the listening flag
  is still false), every frame the binding core delivers is discarded: the inner hook
  returns with the object unchanged, and the delivery through the registry leaves every
  interface object as it was. From construction on, the queue of the frame source stays
  empty however many frames arrive; and once the source is acquired, the frames
  observable from it are exactly those delivered afterwards, none of the earlier ones.
\<close>

theorem frames_before_acquisition_dropped:
  "(\<not> isListening v \<longrightarrow>
      receiveFrame f v = Inr v \<and> fold step (map Deliver fs) v = v)
   \<and> (map_of (interfaces w) h = Some r \<and> \<not> isListening (objects w r) \<longrightarrow>
        objects (resume_receive_frame h frame w) = objects w)
   \<and> fold step (map Deliver fs) new_VirtualTapInterface
        = (new_VirtualTapInterface :: 'f VirtualTapInterface)
   \<and> queue (readable (fold step (map Deliver fs)
        (new_VirtualTapInterface :: 'f VirtualTapInterface))) = []
   \<and> (\<exists>v'. getReader (fold step (map Deliver fs)
                (new_VirtualTapInterface :: 'f VirtualTapInterface)) = Inr v'
         \<and> queue (readable v') = []
         \<and> queue (readable (fold step (map Deliver gs) v')) = gs)"
proof -
  let ?new = "new_VirtualTapInterface :: 'f VirtualTapInterface"
  have same: "fold step (map Deliver fs) ?new = ?new"
    by (rule deliver_not_listening) (simp add: new_fields)
  let ?v' = "?new\<lparr>readable := (readable ?new)\<lparr>locked := True\<rparr>, isListening := True\<rparr>"
  have acq: "getReader ?new = Inr ?v'"
    by (rule getReader_unlocked) (simp add: new_fields)
  have "fold step (map Deliver gs) ?v' =
          ?v'\<lparr>readable := (readable ?v')\<lparr>queue := queue (readable ?v') @ gs\<rparr>\<rparr>"
    by (rule deliver_open [where c = ReadableStreamController]) (simp_all add: new_fields)
  then have later: "queue (readable (fold step (map Deliver gs) ?v')) = gs"
    by (simp add: new_fields)
  have empty: "queue (readable ?v') = []"
    by (simp add: new_fields)
  have core: "objects (resume_receive_frame h frame w) = objects w"
    if "map_of (interfaces w) h = Some r" "\<not> isListening (objects w r)"
    using that by (simp add: resume_known receiveFrame_not_listening new_Uint8Array_def
        allocate_fields)
  show ?thesis
    using same acq later empty core
    by (simp add: receiveFrame_not_listening deliver_not_listening new_fields)
qed

theorem frames_before_acquisition_dropped_witness:
  "receiveFrame (5 :: nat) new_VirtualTapInterface = Inr new_VirtualTapInterface
   \<and> fold step (map Deliver [1, 2 :: nat]) new_VirtualTapInterface = new_VirtualTapInterface
   \<and> objects (resume_receive_frame 7 \<lparr>buffer = WasmMemory, byteOffset = 0, byteLength = 3\<rparr>
        (register_tap_interface 7 (new_TapBindings [1, 2, 3])))
       = objects (register_tap_interface 7 (new_TapBindings [1, 2, 3]))"
proof -
  have a: "\<not> isListening (new_VirtualTapInterface :: nat VirtualTapInterface)"
    by (simp add: new_fields)
  have b: "map_of (interfaces (register_tap_interface 7 (new_TapBindings [1, 2, 3]))) 7 = Some 0
           \<and> \<not> isListening (objects (register_tap_interface 7 (new_TapBindings [1, 2, 3])) 0)"
    by (simp add: register_eq new_TapBindings_def setOuter_def new_fields)
  from a b
    frames_before_acquisition_dropped
      [of "new_VirtualTapInterface :: nat VirtualTapInterface" 5 "[1, 2]"
          "register_tap_interface 7 (new_TapBindings [1, 2, 3])" 7 0
          "\<lparr>buffer = WasmMemory, byteOffset = 0, byteLength = 3\<rparr>"]
  show ?thesis by simp
qed

text \<open>
  C2, as amended. Once the frame source has been acquired, the listening flag stays true
  whatever happens to the object afterwards, also when the consumer releases or cancels
  the source. A frame delivered afterwards is appended to the queue of the frame source
  as long as the stream is open; it is dropped only when the stream has been closed by a
  cancel, where the enqueue is refused and the object stays as it was.
\<close>

theorem frames_after_acquisition:
  assumes "getReader v0 = Inr v1" "readableController v0 = Some c"
  shows "isListening (fold step es v1)
    \<and> (state (readable (fold step es v1)) = Readable \<longrightarrow>
         receiveFrame f (fold step es v1) =
           Inr ((fold step es v1)\<lparr>readable := (readable (fold step es v1))
                  \<lparr>queue := queue (readable (fold step es v1)) @ [f]\<rparr>\<rparr>))
    \<and> (state (readable (fold step es v1)) = Closed \<longrightarrow>
         receiveFrame f (fold step es v1) = Inl StreamTypeError
         \<and> step (Deliver f) (fold step es v1) = fold step es v1)
    \<and> (map_of (interfaces w) h = Some r \<and> objects w r = fold step es v1
         \<and> state (readable (objects w r)) = Readable \<longrightarrow>
         queue (readable (objects (resume_receive_frame h frame w) r)) =
           queue (readable (objects w r)) @ [fst (new_Uint8Array frame w)])
    \<and> (map_of (interfaces w) h = Some r \<and> objects w r = fold step es v1
         \<and> state (readable (objects w r)) = Closed \<longrightarrow>
         objects (resume_receive_frame h frame w) = objects w
         \<and> unhandledRejections (resume_receive_frame h frame w) =
             unhandledRejections w @ [StreamTypeError])"
proof -
  let ?v = "fold step es v1"
  from assms have l: "isListening v1" and c: "readableController v1 = Some c"
    by (simp_all add: getReader_fields)
  have l': "isListening ?v" by (rule fold_step_listening [OF l])
  have c': "readableController ?v = Some c" by (simp add: fold_step_controller c)
  have "queue (readable (objects (resume_receive_frame h frame w) r)) =
          queue (readable (objects w r)) @ [fst (new_Uint8Array frame w)]"
    if "map_of (interfaces w) h = Some r" "objects w r = ?v"
      "state (readable (objects w r)) = Readable"
    using that l' c' by (intro resume_known_queue [where c = c]) simp_all
  moreover have "objects (resume_receive_frame h frame w) = objects w
      \<and> unhandledRejections (resume_receive_frame h frame w) =
          unhandledRejections w @ [StreamTypeError]"
    if "map_of (interfaces w) h = Some r" "objects w r = ?v"
      "state (readable (objects w r)) = Closed"
    using that l' c'
    by (simp add: resume_known receiveFrame_closed [where c = c] new_Uint8Array_def
        allocate_fields)
  moreover have "receiveFrame f ?v =
      Inr (?v\<lparr>readable := (readable ?v)\<lparr>queue := queue (readable ?v) @ [f]\<rparr>\<rparr>)"
    if "state (readable ?v) = Readable"
    using that l' c' by (simp add: receiveFrame_open)
  moreover have "receiveFrame f ?v = Inl StreamTypeError \<and> step (Deliver f) ?v = ?v"
    if "state (readable ?v) = Closed"
    using that l' c' by (simp add: receiveFrame_closed)
  ultimately show ?thesis
    using l' by blast
qed

theorem frames_after_acquisition_witness:
  "isListening (fold step [Release] (step Acquire
       (setOuter 7 (new_VirtualTapInterface :: Uint8Array VirtualTapInterface))))
   \<and> queue (readable (step (Deliver \<lparr>buffer = ArrayBuffer 0, byteOffset = 0, byteLength = 3\<rparr>)
         (fold step [Release] (step Acquire (setOuter 7 new_VirtualTapInterface)))))
       = [\<lparr>buffer = ArrayBuffer 0, byteOffset = 0, byteLength = 3\<rparr>]
   \<and> receiveFrame \<lparr>buffer = ArrayBuffer 0, byteOffset = 0, byteLength = 3\<rparr>
         (fold step [Cancel] (step Acquire (setOuter 7 new_VirtualTapInterface)))
       = Inl StreamTypeError
   \<and> unhandledRejections (deliver_after [Acquire, Cancel]) = [StreamTypeError]
   \<and> queue (readable (objects (deliver_after [Acquire, Cancel]) 0)) = []"
proof -
  let ?F = "\<lparr>buffer = ArrayBuffer 0, byteOffset = 0, byteLength = 3\<rparr>"
  let ?o = "setOuter 7 (new_VirtualTapInterface :: Uint8Array VirtualTapInterface)"
  let ?W = "receive_frame 7 0 3 (registered_bindings [Acquire, Cancel])"
  let ?W' = "?W\<lparr>microtasks := []\<rparr>"
  have a: "getReader ?o = Inr (step Acquire ?o)"
    and c: "readableController ?o = Some ReadableStreamController"
    by (simp_all add: getReader_unlocked new_fields setOuter_def)
  have r: "state (readable (fold step [Release] (step Acquire ?o))) = Readable"
    and q: "queue (readable (fold step [Release] (step Acquire ?o))) = []"
    by (simp_all add: getReader_unlocked new_fields releaseLock_def setOuter_def)
  have w: "map_of (interfaces ?W') 7 = Some 0"
    "objects ?W' 0 = fold step [Cancel] (step Acquire ?o)"
    "unhandledRejections ?W' = []"
    "microtasks ?W = [Resume_receive_frame 7 ?F]"
    by (simp_all add: receive_frame_eq registered_bindings_def on_object_def register_eq
        new_TapBindings_def)
  have s: "state (readable (objects ?W' 0)) = Closed"
    "queue (readable (objects ?W' 0)) = []"
    using w(2) by (simp_all add: cancel_def getReader_unlocked new_fields setOuter_def)
  have run: "deliver_after [Acquire, Cancel] = resume_receive_frame 7 ?F ?W'"
    by (simp add: deliver_after_def run_microtask_def w(4))
  from frames_after_acquisition [OF a c, where es = "[Release]" and f = ?F] r q
  have 1: "isListening (fold step [Release] (step Acquire ?o))"
    and 2: "queue (readable (step (Deliver ?F) (fold step [Release] (step Acquire ?o)))) = [?F]"
    by simp_all
  from frames_after_acquisition
    [OF a c, where es = "[Cancel]" and f = ?F and w = ?W' and h = 7 and r = 0 and frame = ?F]
    w(1,2) s(1)
  have 3: "receiveFrame ?F (fold step [Cancel] (step Acquire ?o)) = Inl StreamTypeError"
    and o: "objects (resume_receive_frame 7 ?F ?W') = objects ?W'"
    and u: "unhandledRejections (resume_receive_frame 7 ?F ?W') =
           unhandledRejections ?W' @ [StreamTypeError]"
    by simp_all
  have 4: "unhandledRejections (deliver_after [Acquire, Cancel]) = [StreamTypeError]"
    using u w(3) by (simp add: run)
  have 5: "queue (readable (objects (deliver_after [Acquire, Cancel]) 0)) = []"
    using o s(2) by (simp add: run)
  from 1 2 3 4 5 show ?thesis by blast
qed

text \<open>
  C2 as it is written fails: a consumer acquires the source of a registered interface
  and discards it, by releasing the reader or by abandoning it; the frame the engine
  delivers next is enqueued onto the frame source, and the registry entry is still there.
\<close>

theorem discarded_source_still_enqueues:
  "map_of (interfaces (deliver_after [Acquire, Release])) 7 = Some 0
   \<and> map (bytes_of (deliver_after [Acquire, Release]))
         (queue (readable (objects (deliver_after [Acquire, Release]) 0))) = [[1, 2, 3]]
   \<and> \<not> locked (readable (objects (deliver_after [Acquire, Release]) 0))
   \<and> map_of (interfaces (deliver_after [Acquire])) 7 = Some 0
   \<and> map (bytes_of (deliver_after [Acquire]))
         (queue (readable (objects (deliver_after [Acquire]) 0))) = [[1, 2, 3]]"
  by (simp add: deliver_after_def registered_bindings_def run_microtask_def receive_frame_eq resume_receive_frame_def
      new_Uint8Array_def allocate_def bytes_of_def on_object_def register_eq
      new_TapBindings_def setOuter_def new_VirtualTapInterface_def start_def
      initial_fields_def getReader_def acquire_lock_def lock_def releaseLock_def
      receiveFrame_def enqueue_def)

text \<open>
  C4. When the frame source of an interface is already acquired (the stream is locked),
  an acquisition through the iteration accessor \<open>listen\<close> fails with
  \<open>AlreadyListening\<close>. On an unlocked stream \<open>listen\<close> succeeds, locks the stream
  and sets the listening flag, so that a second attempt fails; in particular the first
  acquisition on a new interface succeeds, whatever was delivered before.
\<close>

theorem listen_exclusive:
  "(locked (readable v) \<longrightarrow> listen v = Inl AlreadyListening)
   \<and> (\<not> locked (readable v) \<longrightarrow>
        (\<exists>v'. listen v = Inr v' \<and> locked (readable v') \<and> isListening v'
           \<and> listen v' = Inl AlreadyListening))
   \<and> (\<exists>v'. listen (fold step (map Deliver fs) (new_VirtualTapInterface :: 'f VirtualTapInterface)) = Inr v'
         \<and> listen v' = Inl AlreadyListening)"
proof -
  let ?new = "new_VirtualTapInterface :: 'f VirtualTapInterface"
  have "fold step (map Deliver fs) ?new = ?new"
    by (rule deliver_not_listening) (simp add: new_fields)
  then show ?thesis
    by (simp add: listen_def fromReadable_def getReader_unlocked new_fields)
qed

theorem listen_exclusive_witness:
  "(\<exists>v'. listen (new_VirtualTapInterface :: nat VirtualTapInterface) = Inr v'
      \<and> locked (readable v') \<and> isListening v' \<and> listen v' = Inl AlreadyListening)
   \<and> listen ((new_VirtualTapInterface :: nat VirtualTapInterface)
        \<lparr>readable := \<lparr>queue = [], locked = True, state = Readable\<rparr>\<rparr>) = Inl AlreadyListening"
  using listen_exclusive [of "new_VirtualTapInterface :: nat VirtualTapInterface" "[]"]
    listen_exclusive [of "(new_VirtualTapInterface :: nat VirtualTapInterface)
        \<lparr>readable := \<lparr>queue = [], locked = True, state = Readable\<rparr>\<rparr>" "[]"]
  by (simp add: new_fields) blast

text \<open>
  C10. The controller field of a virtual tap interface is assigned during construction:
  the start callback of the stream runs before the constructor returns. Nothing that
  happens to the object afterwards clears it, so whenever the inner hook runs (with the
  listening flag true or not) the branch that throws "readable stream not initialized"
  is not taken; with the fields as they are before the stream is built, the flag is
  false and the hook returns early.
\<close>

theorem controller_always_initialized:
  "readableController (new_VirtualTapInterface :: 'f VirtualTapInterface) = Some ReadableStreamController
   \<and> readableController (fold step es (setOuter h (new_VirtualTapInterface :: 'f VirtualTapInterface)))
       = Some ReadableStreamController
   \<and> receiveFrame f (fold step es (setOuter h new_VirtualTapInterface)) \<noteq> Inl NotInitialized
   \<and> receiveFrame f (fold step es new_VirtualTapInterface) \<noteq> Inl NotInitialized
   \<and> receiveFrame f initial_fields = Inr initial_fields"
  by (simp add: receiveFrame_NotInitialized fold_step_controller new_fields setOuter_def
      receiveFrame_not_listening initial_fields_def)

section \<open>The claims about the bindings\<close>

text \<open>
  C3. A call of \<open>receive_frame\<close> copies the bytes out of foreign memory at once and
  queues the rest of its work: up to the deferral no interface object, registry entry,
  console line or rejection changes, and the queued continuation holds an array over a
  new buffer with the bytes as they were at the call. When the continuation runs in a
  later state (whatever the engine has written to its memory since), the frame handed to
  the interface of the handle is a copy in yet another new buffer, which is neither the
  foreign memory nor the buffer of the first copy; it holds the bytes of the call, no
  later write to foreign memory changes it, and a listening interface with an open
  stream gets it at the end of its queue.
\<close>

theorem receive_frame_copies_then_defers:
  "objects (receive_frame h framePtr len w) = objects w
   \<and> interfaces (receive_frame h framePtr len w) = interfaces w
   \<and> console (receive_frame h framePtr len w) = console w
   \<and> unhandledRejections (receive_frame h framePtr len w) = unhandledRejections w
   \<and> (\<exists>frame.
        microtasks (receive_frame h framePtr len w) = microtasks w @ [Resume_receive_frame h frame]
        \<and> buffer frame = ArrayBuffer (next_buffer w)
        \<and> bytes_of (receive_frame h framePtr len w) frame = take len (drop framePtr (memory w))
        \<and> (\<forall>w' r. map_of (interfaces w') h = Some r
               \<and> arrayBuffers w' (next_buffer w) = take len (drop framePtr (memory w))
               \<and> next_buffer w < next_buffer w' \<longrightarrow>
               (\<exists>copy.
                  resume_receive_frame h frame w' =
                    (case receiveFrame copy (objects w' r) of
                       Inl e \<Rightarrow> (snd (new_Uint8Array frame w'))
                                  \<lparr>unhandledRejections := unhandledRejections w' @ [e]\<rparr>
                     | Inr v \<Rightarrow> (snd (new_Uint8Array frame w'))
                                  \<lparr>objects := (objects w')(r := v)\<rparr>)
                  \<and> buffer copy = ArrayBuffer (next_buffer w')
                  \<and> buffer copy \<noteq> buffer frame
                  \<and> buffer copy \<noteq> WasmMemory
                  \<and> (\<forall>m. bytes_of ((resume_receive_frame h frame w')\<lparr>memory := m\<rparr>) copy
                        = take len (drop framePtr (memory w)))
                  \<and> (isListening (objects w' r)
                       \<and> readableController (objects w' r) = Some ReadableStreamController
                       \<and> state (readable (objects w' r)) = Readable \<longrightarrow>
                       queue (readable (objects (resume_receive_frame h frame w') r))
                         = queue (readable (objects w' r)) @ [copy]))))"
proof -
  define bytes where "bytes = take len (drop framePtr (memory w))"
  define frame where
    "frame = \<lparr>buffer = ArrayBuffer (next_buffer w), byteOffset = 0, byteLength = length bytes\<rparr>"
  have rf: "receive_frame h framePtr len w =
      w\<lparr>arrayBuffers := (arrayBuffers w)(next_buffer w := bytes),
        next_buffer := Suc (next_buffer w),
        microtasks := microtasks w @ [Resume_receive_frame h frame]\<rparr>"
    unfolding frame_def bytes_def by (rule receive_frame_eq)
  have fr: "buffer frame = ArrayBuffer (next_buffer w)" "byteOffset frame = 0"
    "byteLength frame = length bytes"
    by (simp_all add: frame_def)
  have later: "\<exists>copy.
      resume_receive_frame h frame w' =
        (case receiveFrame copy (objects w' r) of
           Inl e \<Rightarrow> (snd (new_Uint8Array frame w'))
                      \<lparr>unhandledRejections := unhandledRejections w' @ [e]\<rparr>
         | Inr v \<Rightarrow> (snd (new_Uint8Array frame w'))\<lparr>objects := (objects w')(r := v)\<rparr>)
      \<and> buffer copy = ArrayBuffer (next_buffer w')
      \<and> buffer copy \<noteq> buffer frame
      \<and> buffer copy \<noteq> WasmMemory
      \<and> (\<forall>m. bytes_of ((resume_receive_frame h frame w')\<lparr>memory := m\<rparr>) copy = bytes)
      \<and> (isListening (objects w' r)
           \<and> readableController (objects w' r) = Some ReadableStreamController
           \<and> state (readable (objects w' r)) = Readable \<longrightarrow>
           queue (readable (objects (resume_receive_frame h frame w') r))
             = queue (readable (objects w' r)) @ [copy])"
    if known: "map_of (interfaces w') h = Some r"
      and intact: "arrayBuffers w' (next_buffer w) = bytes"
      and grown: "next_buffer w < next_buffer w'"
    for w' r
  proof -
    let ?copy = "fst (new_Uint8Array frame w')"
    have snap: "bytes_of w' frame = bytes"
      using bytes_of_whole [of frame "next_buffer w" w'] fr intact by simp
    have copy: "buffer ?copy = ArrayBuffer (next_buffer w')" "byteOffset ?copy = 0"
      "byteLength ?copy = length bytes"
      by (simp_all add: new_Uint8Array_def allocate_fields snap)
    have 1: "resume_receive_frame h frame w' =
        (case receiveFrame ?copy (objects w' r) of
           Inl e \<Rightarrow> (snd (new_Uint8Array frame w'))
                      \<lparr>unhandledRejections := unhandledRejections w' @ [e]\<rparr>
         | Inr v \<Rightarrow> (snd (new_Uint8Array frame w'))\<lparr>objects := (objects w')(r := v)\<rparr>)"
      by (rule resume_known [OF known])
    have 3: "buffer ?copy \<noteq> buffer frame" using grown by (simp add: copy fr)
    have 4: "buffer ?copy \<noteq> WasmMemory" by (simp add: copy)
    have 5: "bytes_of ((resume_receive_frame h frame w')\<lparr>memory := m\<rparr>) ?copy = bytes" for m
      using bytes_of_whole [of ?copy "next_buffer w'"
          "(resume_receive_frame h frame w')\<lparr>memory := m\<rparr>"]
      by (simp add: copy resume_known_buffers [OF known] snap)
    have 6: "queue (readable (objects (resume_receive_frame h frame w') r))
             = queue (readable (objects w' r)) @ [?copy]"
      if "isListening (objects w' r)"
        "readableController (objects w' r) = Some ReadableStreamController"
        "state (readable (objects w' r)) = Readable"
      by (rule resume_known_queue [OF known that])
    from 1 copy(1) 3 4 5 6 show ?thesis by blast
  qed
  have now: "microtasks (receive_frame h framePtr len w)
               = microtasks w @ [Resume_receive_frame h frame]
      \<and> buffer frame = ArrayBuffer (next_buffer w)
      \<and> bytes_of (receive_frame h framePtr len w) frame = bytes"
    using bytes_of_whole [of frame "next_buffer w" "receive_frame h framePtr len w"]
    by (simp add: rf fr)
  have unchanged: "objects (receive_frame h framePtr len w) = objects w
      \<and> interfaces (receive_frame h framePtr len w) = interfaces w
      \<and> console (receive_frame h framePtr len w) = console w
      \<and> unhandledRejections (receive_frame h framePtr len w) = unhandledRejections w"
    by (simp add: rf)
  show ?thesis
    unfolding bytes_def [symmetric]
    using unchanged now later by (intro conjI exI [of _ frame]) blast+
qed

theorem receive_frame_copies_then_defers_witness:
  "\<exists>copy.
     queue (readable (objects
       (resume_receive_frame 7 \<lparr>buffer = ArrayBuffer 0, byteOffset = 0, byteLength = 3\<rparr>
          ((receive_frame 7 0 3 (registered_bindings [Acquire]))\<lparr>memory := [9, 9, 9]\<rparr>)) 0))
       = [copy]
     \<and> bytes_of
         (resume_receive_frame 7 \<lparr>buffer = ArrayBuffer 0, byteOffset = 0, byteLength = 3\<rparr>
            ((receive_frame 7 0 3 (registered_bindings [Acquire]))\<lparr>memory := [9, 9, 9]\<rparr>))
         copy = [1, 2, 3]
     \<and> buffer copy = ArrayBuffer 1"
proof -
  let ?W = "registered_bindings [Acquire]"
  let ?F = "\<lparr>buffer = ArrayBuffer 0, byteOffset = 0, byteLength = 3\<rparr>"
  let ?W' = "(receive_frame 7 0 3 ?W)\<lparr>memory := [9, 9, 9]\<rparr>"
  let ?W2 = "resume_receive_frame 7 ?F ?W'"
  have w: "interfaces ?W = [(7, 0)]" "next_buffer ?W = 0" "memory ?W = [1, 2, 3]"
    "microtasks ?W = []"
    "objects ?W 0 = (setOuter 7 new_VirtualTapInterface)
        \<lparr>readable := \<lparr>queue = [], locked = True, state = Readable\<rparr>, isListening := True\<rparr>"
    by (simp_all add: registered_bindings_def on_object_def register_eq new_TapBindings_def
        getReader_def acquire_lock_def lock_def setOuter_def new_VirtualTapInterface_def
        start_def initial_fields_def)
  have m: "microtasks (receive_frame 7 0 3 ?W) = [Resume_receive_frame 7 ?F]"
    by (simp add: receive_frame_eq w)
  have w': "map_of (interfaces ?W') 7 = Some 0"
    "arrayBuffers ?W' (next_buffer ?W) = take 3 (drop 0 (memory ?W))"
    "next_buffer ?W < next_buffer ?W'"
    "isListening (objects ?W' 0)"
    "readableController (objects ?W' 0) = Some ReadableStreamController"
    "state (readable (objects ?W' 0)) = Readable"
    "queue (readable (objects ?W' 0)) = []"
    by (simp_all add: receive_frame_eq w setOuter_def new_fields)
  from receive_frame_copies_then_defers [of 7 0 3 ?W] obtain frame where
    t: "microtasks (receive_frame 7 0 3 ?W) = microtasks ?W @ [Resume_receive_frame 7 frame]"
    and l: "\<forall>w' r. map_of (interfaces w') 7 = Some r
               \<and> arrayBuffers w' (next_buffer ?W) = take 3 (drop 0 (memory ?W))
               \<and> next_buffer ?W < next_buffer w' \<longrightarrow>
               (\<exists>copy.
                  resume_receive_frame 7 frame w' =
                    (case receiveFrame copy (objects w' r) of
                       Inl e \<Rightarrow> (snd (new_Uint8Array frame w'))
                                  \<lparr>unhandledRejections := unhandledRejections w' @ [e]\<rparr>
                     | Inr v \<Rightarrow> (snd (new_Uint8Array frame w'))
                                  \<lparr>objects := (objects w')(r := v)\<rparr>)
                  \<and> buffer copy = ArrayBuffer (next_buffer w')
                  \<and> buffer copy \<noteq> buffer frame
                  \<and> buffer copy \<noteq> WasmMemory
                  \<and> (\<forall>m. bytes_of ((resume_receive_frame 7 frame w')\<lparr>memory := m\<rparr>) copy
                        = take 3 (drop 0 (memory ?W)))
                  \<and> (isListening (objects w' r)
                       \<and> readableController (objects w' r) = Some ReadableStreamController
                       \<and> state (readable (objects w' r)) = Readable \<longrightarrow>
                       queue (readable (objects (resume_receive_frame 7 frame w') r))
                         = queue (readable (objects w' r)) @ [copy]))"
    by blast
  from t m w(4) have frame: "frame = ?F" by simp
  from l w'(1-3) obtain copy where
    c: "buffer copy = ArrayBuffer (next_buffer ?W')"
      "\<forall>m. bytes_of ((resume_receive_frame 7 frame ?W')\<lparr>memory := m\<rparr>) copy
           = take 3 (drop 0 (memory ?W))"
      "isListening (objects ?W' 0)
         \<and> readableController (objects ?W' 0) = Some ReadableStreamController
         \<and> state (readable (objects ?W' 0)) = Readable \<longrightarrow>
         queue (readable (objects (resume_receive_frame 7 frame ?W') 0))
           = queue (readable (objects ?W' 0)) @ [copy]"
    by blast
  from c(3) w'(4-7) have q: "queue (readable (objects ?W2 0)) = [copy]"
    by (simp add: frame)
  from c(2) have "bytes_of (?W2\<lparr>memory := memory ?W2\<rparr>) copy = take 3 (drop 0 (memory ?W))"
    unfolding frame by (rule spec)
  then have b: "bytes_of ?W2 copy = [1, 2, 3]"
    by (simp add: w)
  have n: "next_buffer ?W' = 1"
    by (simp add: receive_frame_eq w)
  from q b c(1) n show ?thesis by auto
qed

text \<open>
  C5. The send of the binding core fails with \<open>SendFailed code\<close> exactly when the send
  operation of the engine returns a status code other than the success code. The write
  operation of the sink never throws: it catches the failure and writes it to the
  console (and writes nothing when the send succeeds), so a write to a writable sink
  reports no error to the writer and leaves the sink writable.
\<close>

theorem send_failure_logged_not_propagated:
  "fst (sendFrame eng h frame w) =
      (if snd (send_tap_interface eng h (bytes_of w frame)) = ERR_OK then None
       else Some (SendFailed (snd (send_tap_interface eng h (bytes_of w frame)))))
   \<and> fst (sink_write eng r packet w) = None
   \<and> (outerHooks (objects w r) = Some h
        \<and> snd (send_tap_interface eng h (bytes_of w packet)) \<noteq> ERR_OK \<longrightarrow>
        console (snd (sink_write eng r packet w)) =
          console w @ [ConsoleError ''tap interface send failed''
            (Some (SendFailed (snd (send_tap_interface eng h (bytes_of w packet)))))])
   \<and> (outerHooks (objects w r) = Some h
        \<and> snd (send_tap_interface eng h (bytes_of w packet)) = ERR_OK \<longrightarrow>
        console (snd (sink_write eng r packet w)) = console w)
   \<and> (writable (objects w r) = Writable \<longrightarrow>
        fst (writer_write eng r packet w) = None
        \<and> writable (objects (snd (writer_write eng r packet w)) r) = Writable)"
proof -
  have w: "writable (objects (snd (sink_write eng r packet w)) r) = Writable"
    if "writable (objects w r) = Writable"
    using that write_try_writable [of w r eng r packet]
    by (simp add: sink_write_snd split: option.splits)
  have ww: "writer_write eng r packet w = sink_write eng r packet w"
    if "writable (objects w r) = Writable"
    using that sink_write_no_throw [of eng r packet w]
    by (cases "sink_write eng r packet w") (simp add: writer_write_def)
  show ?thesis
    using w ww
    by (simp add: sendFrame_eq sink_write_no_throw sink_write_snd write_try_def
        run_engine_console call_export_def)
qed

theorem send_failure_logged_not_propagated_witness:
  "fst (sendFrame
          \<lparr>create_tap_interface = (\<lambda>m i n. ([], 7)), remove_tap_interface = (\<lambda>h. []),
           send_tap_interface = (\<lambda>h bs. ([], - 6))\<rparr>
          7 \<lparr>buffer = WasmMemory, byteOffset = 0, byteLength = 3\<rparr> (registered_bindings []))
     = Some (SendFailed (- 6))
   \<and> fst (sink_write
          \<lparr>create_tap_interface = (\<lambda>m i n. ([], 7)), remove_tap_interface = (\<lambda>h. []),
           send_tap_interface = (\<lambda>h bs. ([], - 6))\<rparr>
          0 \<lparr>buffer = WasmMemory, byteOffset = 0, byteLength = 3\<rparr> (registered_bindings []))
     = None
   \<and> console (snd (sink_write
          \<lparr>create_tap_interface = (\<lambda>m i n. ([], 7)), remove_tap_interface = (\<lambda>h. []),
           send_tap_interface = (\<lambda>h bs. ([], - 6))\<rparr>
          0 \<lparr>buffer = WasmMemory, byteOffset = 0, byteLength = 3\<rparr> (registered_bindings [])))
     = [ConsoleError ''tap interface send failed'' (Some (SendFailed (- 6)))]
   \<and> writable (objects (snd (writer_write
          \<lparr>create_tap_interface = (\<lambda>m i n. ([], 7)), remove_tap_interface = (\<lambda>h. []),
           send_tap_interface = (\<lambda>h bs. ([], - 6))\<rparr>
          0 \<lparr>buffer = WasmMemory, byteOffset = 0, byteLength = 3\<rparr> (registered_bindings []))) 0)
     = Writable"
proof -
  let ?E = "\<lparr>create_tap_interface = (\<lambda>m i n. ([], 7)), remove_tap_interface = (\<lambda>h. []),
             send_tap_interface = (\<lambda>h bs. ([], - 6))\<rparr> :: engine"
  let ?P = "\<lparr>buffer = WasmMemory, byteOffset = 0, byteLength = 3\<rparr>"
  let ?W = "registered_bindings []"
  have a: "outerHooks (objects ?W 0) = Some 7" "writable (objects ?W 0) = Writable"
    "console ?W = []"
    by (simp_all add: registered_bindings_def on_object_def register_eq new_TapBindings_def
        setOuter_def new_fields)
  have b: "snd (send_tap_interface ?E 7 (bytes_of ?W ?P)) = - 6" "(- 6 :: int) \<noteq> ERR_OK"
    by (simp_all add: ERR_OK_def)
  from send_failure_logged_not_propagated [of ?E 7 ?P ?W 0 ?P] a b
  show ?thesis by simp
qed

text \<open>
  C6. When the options serialize (a missing option and an empty string both count as
  absent and are not serialized) and the create operation of the engine has returned a
  handle, \<open>create\<close> fails with \<open>RegistrationFailed\<close> if the registry has no entry for
  that handle, and otherwise returns exactly the interface object the registry maps the
  handle to. It fails exactly when the handle had no entry before the call and the
  engine did not call register for it during the call.
\<close>

theorem create_resolves_handle:
  assumes "serialize_options cdc options = Inr (macAddress, ipAddress, netmask)"
    and "create_tap_interface eng macAddress ipAddress netmask = (acts, h)"
  shows "(map_of (interfaces (snd (create eng cdc options w))) h = None \<longrightarrow>
            fst (create eng cdc options w) = Inl RegistrationFailed)
    \<and> (\<forall>tapInterface. map_of (interfaces (snd (create eng cdc options w))) h = Some tapInterface
          \<longrightarrow> fst (create eng cdc options w) = Inr tapInterface)
    \<and> snd (create eng cdc options w) =
          run_engine acts (call_export (Create_tap_interface macAddress ipAddress netmask) w)
    \<and> (fst (create eng cdc options w) = Inl RegistrationFailed \<longleftrightarrow>
          map_of (interfaces w) h = None \<and> Call_register_tap_interface h \<notin> set acts)"
proof -
  let ?w1 = "run_engine acts (call_export (Create_tap_interface macAddress ipAddress netmask) w)"
  have reg: "map_of (interfaces ?w1) h = None \<longleftrightarrow>
        map_of (interfaces w) h = None \<and> Call_register_tap_interface h \<notin> set acts"
    by (simp add: run_engine_registered call_export_def)
  show ?thesis
    unfolding create_eq [OF assms]
    using reg by (auto split: option.splits)
qed

theorem create_resolves_handle_witness:
  "fst (create
          \<lparr>create_tap_interface = (\<lambda>m i n. ([Call_register_tap_interface 7], 7)),
           remove_tap_interface = (\<lambda>h. []), send_tap_interface = (\<lambda>h bs. ([], 0))\<rparr>
          \<lparr>serializeMacAddress = (\<lambda>s. Inl MalformedInput),
           generateMacAddress = [2, 0, 0, 0, 0, 1],
           serializeIPv4Cidr = (\<lambda>s. Inl MalformedInput)\<rparr>
          \<lparr>mac = None, ip = None\<rparr> (new_TapBindings [])) = Inr 0
   \<and> fst (create
          \<lparr>create_tap_interface = (\<lambda>m i n. ([], 7)),
           remove_tap_interface = (\<lambda>h. []), send_tap_interface = (\<lambda>h bs. ([], 0))\<rparr>
          \<lparr>serializeMacAddress = (\<lambda>s. Inl MalformedInput),
           generateMacAddress = [2, 0, 0, 0, 0, 1],
           serializeIPv4Cidr = (\<lambda>s. Inl MalformedInput)\<rparr>
          \<lparr>mac = None, ip = None\<rparr> (new_TapBindings [])) = Inl RegistrationFailed
   \<and> fst (create
          \<lparr>create_tap_interface = (\<lambda>m i n. ([Call_register_tap_interface 7], 7)),
           remove_tap_interface = (\<lambda>h. []), send_tap_interface = (\<lambda>h bs. ([], 0))\<rparr>
          \<lparr>serializeMacAddress = (\<lambda>s. Inl MalformedInput),
           generateMacAddress = [2, 0, 0, 0, 0, 1],
           serializeIPv4Cidr = (\<lambda>s. Inl MalformedInput)\<rparr>
          \<lparr>mac = Some [], ip = Some []\<rparr> (new_TapBindings [])) = Inr 0"
proof -
  let ?E1 = "\<lparr>create_tap_interface = (\<lambda>m i n. ([Call_register_tap_interface 7], 7)),
           remove_tap_interface = (\<lambda>h. []), send_tap_interface = (\<lambda>h bs. ([], 0))\<rparr> :: engine"
  let ?E2 = "\<lparr>create_tap_interface = (\<lambda>m i n. ([], 7)),
           remove_tap_interface = (\<lambda>h. []), send_tap_interface = (\<lambda>h bs. ([], 0))\<rparr> :: engine"
  let ?C = "\<lparr>serializeMacAddress = (\<lambda>s. Inl MalformedInput),
           generateMacAddress = [2, 0, 0, 0, 0, 1],
           serializeIPv4Cidr = (\<lambda>s. Inl MalformedInput)\<rparr> :: codec"
  let ?O = "\<lparr>mac = None, ip = None\<rparr>"
  let ?O' = "\<lparr>mac = Some [], ip = Some []\<rparr>"
  let ?W = "new_TapBindings []"
  have s: "serialize_options ?C ?O = Inr ([2, 0, 0, 0, 0, 1], None, None)"
    and s': "serialize_options ?C ?O' = Inr ([2, 0, 0, 0, 0, 1], None, None)"
    by (simp_all add: serialize_options_def)
  have e1: "create_tap_interface ?E1 [2, 0, 0, 0, 0, 1] None None
              = ([Call_register_tap_interface 7], 7)"
    and e2: "create_tap_interface ?E2 [2, 0, 0, 0, 0, 1] None None = ([], 7)"
    by simp_all
  have r1: "map_of (interfaces (snd (create ?E1 ?C ?O ?W))) 7 = Some 0"
    using create_resolves_handle [OF s e1, of ?W]
    by (simp add: run_engine_def register_eq call_export_def new_TapBindings_def)
  have r1': "map_of (interfaces (snd (create ?E1 ?C ?O' ?W))) 7 = Some 0"
    using create_resolves_handle [OF s' e1, of ?W]
    by (simp add: run_engine_def register_eq call_export_def new_TapBindings_def)
  have r2: "map_of (interfaces ?W) 7 = None"
    by (simp add: new_TapBindings_def)
  from create_resolves_handle [OF s e1, of ?W] r1
  have 1: "fst (create ?E1 ?C ?O ?W) = Inr 0" by simp
  from create_resolves_handle [OF s e2, of ?W] r2
  have 2: "fst (create ?E2 ?C ?O ?W) = Inl RegistrationFailed" by simp
  from create_resolves_handle [OF s' e1, of ?W] r1'
  have 3: "fst (create ?E1 ?C ?O' ?W) = Inr 0" by simp
  from 1 2 3 show ?thesis by blast
qed

text \<open>
  C7. \<open>remove\<close> of an object that no registry entry maps to changes nothing and raises
  nothing. When an entry is found (the first one in insertion order whose value is the
  object), the engine is told to remove its handle while the mapping is still in place,
  and the mapping is deleted from the state the engine call left: afterwards the
  registry has no entry for the handle, and exactly one remove call has been made.
\<close>

theorem remove_engine_first_then_mapping:
  "(tapInterface \<notin> snd ` set (interfaces w) \<longrightarrow> remove_tap eng tapInterface w = w)
   \<and> (tapInterface \<in> snd ` set (interfaces w) \<longrightarrow>
        (\<exists>h. find (\<lambda>e. snd e = tapInterface) (interfaces w) = Some (h, tapInterface)))
   \<and> (find (\<lambda>e. snd e = tapInterface) (interfaces w) = Some (h, tapInterface) \<longrightarrow>
        remove_tap eng tapInterface w =
          (run_engine (remove_tap_interface eng h) (call_export (Remove_tap_interface h) w))
            \<lparr>interfaces := AList.delete h (interfaces
                (run_engine (remove_tap_interface eng h)
                   (call_export (Remove_tap_interface h) w)))\<rparr>
        \<and> exportCalls (remove_tap eng tapInterface w) = exportCalls w @ [Remove_tap_interface h]
        \<and> map_of (interfaces (remove_tap eng tapInterface w)) h = None)"
  by (simp add: remove_tap_def remove_loop_absent remove_loop_found find_present
      run_engine_exportCalls call_export_def delete_conv')

theorem remove_engine_first_then_mapping_witness:
  "remove_tap
      \<lparr>create_tap_interface = (\<lambda>m i n. ([], 7)),
       remove_tap_interface = (\<lambda>h. [Call_register_tap_interface h]),
       send_tap_interface = (\<lambda>h bs. ([], 0))\<rparr> 5 (registered_bindings [])
     = registered_bindings []
   \<and> interfaces (remove_tap
      \<lparr>create_tap_interface = (\<lambda>m i n. ([], 7)),
       remove_tap_interface = (\<lambda>h. [Call_register_tap_interface h]),
       send_tap_interface = (\<lambda>h bs. ([], 0))\<rparr> 0 (registered_bindings [])) = []
   \<and> exportCalls (remove_tap
      \<lparr>create_tap_interface = (\<lambda>m i n. ([], 7)),
       remove_tap_interface = (\<lambda>h. [Call_register_tap_interface h]),
       send_tap_interface = (\<lambda>h bs. ([], 0))\<rparr> 0 (registered_bindings []))
     = [Remove_tap_interface 7]"
proof -
  let ?E = "\<lparr>create_tap_interface = (\<lambda>m i n. ([], 7)),
       remove_tap_interface = (\<lambda>h. [Call_register_tap_interface h]),
       send_tap_interface = (\<lambda>h bs. ([], 0))\<rparr> :: engine"
  let ?W = "registered_bindings []"
  have i: "interfaces ?W = [(7, 0)]" and x: "exportCalls ?W = []"
    by (simp_all add: registered_bindings_def on_object_def register_eq new_TapBindings_def)
  have a: "5 \<notin> snd ` set (interfaces ?W)"
    and f: "find (\<lambda>e. snd e = 0) (interfaces ?W) = Some (7, 0)"
    by (simp_all add: i)
  from remove_engine_first_then_mapping [of 5 ?W ?E] a
  have "remove_tap ?E 5 ?W = ?W" by simp
  moreover from remove_engine_first_then_mapping [of 0 ?W ?E 7] f
  have "interfaces (remove_tap ?E 0 ?W) = []"
    and "exportCalls (remove_tap ?E 0 ?W) = [Remove_tap_interface 7]"
    by (simp_all add: i x run_engine_def register_eq call_export_def)
  ultimately show ?thesis by simp
qed

text \<open>
  C8. When the handle of a receive callback has no interface in the registry at delivery
  time, the frame is dropped and the event is written to the console: the registry and
  every interface object stay as they are, and no error is raised (no rejection is
  left unhandled, and the callback has no other way to report one).
\<close>

theorem unknown_handle_logged:
  "(map_of (interfaces w) h = None \<longrightarrow>
      resume_receive_frame h frame w =
        w\<lparr>console := console w @
             [ConsoleError ''received frame on unknown tap interface'' None]\<rparr>
      \<and> interfaces (resume_receive_frame h frame w) = interfaces w
      \<and> objects (resume_receive_frame h frame w) = objects w
      \<and> unhandledRejections (resume_receive_frame h frame w) = unhandledRejections w)
   \<and> (map_of (interfaces w) h = None \<and> microtasks w = [] \<longrightarrow>
        run_microtask (receive_frame h framePtr len w) =
          (snd (copyFromMemory framePtr len w))
            \<lparr>console := console w @
               [ConsoleError ''received frame on unknown tap interface'' None]\<rparr>)"
  by (simp add: resume_unknown run_microtask_def receive_frame_eq copyFromMemory_def
      allocate_def)

theorem unknown_handle_logged_witness:
  "resume_receive_frame 7 \<lparr>buffer = ArrayBuffer 0, byteOffset = 0, byteLength = 3\<rparr>
      (new_TapBindings [1, 2, 3])
     = (new_TapBindings [1, 2, 3])
         \<lparr>console := [ConsoleError ''received frame on unknown tap interface'' None]\<rparr>
   \<and> run_microtask (receive_frame 7 0 3 (new_TapBindings [1, 2, 3])) =
       (snd (copyFromMemory 0 3 (new_TapBindings [1, 2, 3])))
         \<lparr>console := [ConsoleError ''received frame on unknown tap interface'' None]\<rparr>"
proof -
  have a: "map_of (interfaces (new_TapBindings [1, 2, 3])) 7 = None"
    and b: "microtasks (new_TapBindings [1, 2, 3]) = []"
    and c: "console (new_TapBindings [1, 2, 3]) = []"
    by (simp_all add: new_TapBindings_def)
  from unknown_handle_logged
    [of "new_TapBindings [1, 2, 3]" 7
        "\<lparr>buffer = ArrayBuffer 0, byteOffset = 0, byteLength = 3\<rparr>" 0 3] a b c
  show ?thesis by simp
qed

end
